theory Spec2Isabelle
  imports Main
begin

section \<open>Values, objects and the heap\<close>

text \<open>
  JavaScript values as far as \<^verbatim>\<open>src/index.ts\<close> looks at them. An object is a reference
  into a heap, so that \<^verbatim>\<open>!==\<close> on two objects compares references and not contents.
  Numbers are integers plus \<^verbatim>\<open>NaN\<close> (the one value that is not \<^verbatim>\<open>===\<close> to itself);
  negative zero is not represented. A thrown exception is any value.
\<close>

datatype val = VUndefined | VNull | VBool bool | VNum int | VNaN | VStr string | VObj nat

datatype pkey = Name string | Symbol nat

type_synonym obj = "pkey \<rightharpoonup> val"

type_synonym heap = "obj list"

text \<open>The operator \<^verbatim>\<open>!==\<close> of line 56.\<close>

definition strict_neq :: "val \<Rightarrow> val \<Rightarrow> bool" where
  "strict_neq a b = (a \<noteq> b \<or> a = VNaN)"

text \<open>\<^verbatim>\<open>Object.is\<close>, the default equality function: same value, \<^verbatim>\<open>NaN\<close> included.\<close>

definition Object_is :: "val \<Rightarrow> val \<Rightarrow> bool" where
  "Object_is a b = (a = b)"

text \<open>Truthiness, for \<^verbatim>\<open>if (error)\<close> of line 121.\<close>

fun truthy :: "val \<Rightarrow> bool" where
  "truthy VUndefined = False"
| "truthy VNull = False"
| "truthy (VBool b) = b"
| "truthy (VNum n) = (n \<noteq> 0)"
| "truthy VNaN = False"
| "truthy (VStr s) = (s \<noteq> [])"
| "truthy (VObj r) = True"

text \<open>
  The own enumerable properties that \<^verbatim>\<open>Object.assign\<close> reads from a source:
  those of the object a reference points to, the indexed characters of a string, and none
  for \<^verbatim>\<open>undefined\<close>, \<^verbatim>\<open>null\<close>, booleans and numbers.
\<close>

fun dec :: "nat \<Rightarrow> string" where
  "dec n = (if n < 10 then [''0123456789'' ! n]
            else dec (n div 10) @ [''0123456789'' ! (n mod 10)])"

definition string_props :: "string \<Rightarrow> obj" where
  "string_props s = map_of (map (\<lambda>i. (Name (dec i), VStr [s ! i])) [0..<length s])"

definition own_props :: "heap \<Rightarrow> val \<Rightarrow> obj" where
  "own_props h v =
     (case v of
        VObj r \<Rightarrow> (if r < length h then h ! r else Map.empty)
      | VStr s \<Rightarrow> string_props s
      | _ \<Rightarrow> Map.empty)"

text \<open>
  \<^verbatim>\<open>Object.assign(target, ...sources)\<close> on property maps: each source in turn writes its
  properties over the target's.
\<close>

definition Object_assign :: "obj \<Rightarrow> obj list \<Rightarrow> obj" where
  "Object_assign target sources = foldl (++) target sources"

text \<open>
  A reference is valid when it points into the heap; other values are always valid. The values
  of a running program are valid; \<open>own_props\<close> gives a reference beyond the heap no
  properties.
\<close>

definition valid_val :: "heap \<Rightarrow> val \<Rightarrow> bool" where
  "valid_val h v = (case v of VObj r \<Rightarrow> r < length h | _ \<Rightarrow> True)"

section \<open>Callbacks and the trace of their invocations\<close>

text \<open>
  The functions the application passes in are parameters of the model. Each may read the
  heap and may throw (\<open>Inl\<close> of the thrown value). An updater and the state initializer may
  also allocate objects, which they return as a list appended to the heap; a selector, an
  equality function and a listener only read. No callback mutates an existing object, and
  none calls back into the store: a listener that calls \<^verbatim>\<open>setState\<close> during a notification
  is outside this model.

  Every invocation of a callback is appended to a trace, so that "is invoked", "is not
  invoked" and "is invoked once" are properties of the trace.
\<close>

type_synonym Updater = "heap \<Rightarrow> val \<Rightarrow> (val + val) \<times> obj list"

type_synonym StateCreator = "heap \<Rightarrow> (val + val) \<times> obj list"

type_synonym StateSelector = "heap \<Rightarrow> val \<Rightarrow> val + val"

type_synonym EqualityChecker = "heap \<Rightarrow> val \<Rightarrow> val \<Rightarrow> val + bool"

type_synonym StateListener = "heap \<Rightarrow> val \<Rightarrow> val option \<Rightarrow> val option"

datatype PartialState = Plain val | Func Updater

datatype call =
    Call_createState
  | Call_partial val
  | Call_selector val
  | Call_equalityFn val val
  | Call_listener nat val "val option"

record world =
  heap :: heap
  trace :: "call list"

definition logged :: "call \<Rightarrow> world \<Rightarrow> world" where
  "logged c w = w\<lparr>trace := trace w @ [c]\<rparr>"

fun is_listener_call :: "call \<Rightarrow> bool" where
  "is_listener_call (Call_listener i a e) = True"
| "is_listener_call _ = False"



section \<open>The store\<close>

text \<open>
  The closure variables of \<^verbatim>\<open>create\<close>: \<^verbatim>\<open>state\<close> and \<^verbatim>\<open>listeners\<close>. Each entry of the
  set is one \<^verbatim>\<open>listenerToAdd\<close> closure with what it captured: the three arguments of
  \<^verbatim>\<open>subscribe\<close> and its variable \<^verbatim>\<open>currentSlice\<close>. The closure's identity is a number
  drawn from a counter, and the set is kept in insertion order, the order in which
  \<^verbatim>\<open>forEach\<close> visits it.
\<close>

record subscription =
  sub_id :: nat
  listener :: StateListener
  selector :: StateSelector
  equalityFn :: EqualityChecker
  currentSlice :: val

record store =
  state :: val
  listeners :: "subscription list"
  next_id :: nat

text \<open>Lines 83-85: the \<^verbatim>\<open>catch\<close> block; what the listener throws there leaves the closure.\<close>

definition catch_error :: "val \<Rightarrow> subscription \<Rightarrow> world \<Rightarrow> val option \<times> subscription \<times> world" where
  "catch_error error l w =
     (listener l (heap w) VNull (Some error), l, logged (Call_listener (sub_id l) VNull (Some error)) w)"

text \<open>Lines 74-86. The first argument is the closure variable \<^verbatim>\<open>state\<close> at the call.\<close>

definition listenerToAdd :: "val \<Rightarrow> subscription \<Rightarrow> world \<Rightarrow> val option \<times> subscription \<times> world" where
  "listenerToAdd s l w =
     (let w1 = logged (Call_selector s) w in
      case selector l (heap w) s of
        Inl error \<Rightarrow> catch_error error l w1
      | Inr newStateSlice \<Rightarrow>
          (let w2 = logged (Call_equalityFn (currentSlice l) newStateSlice) w1 in
           case equalityFn l (heap w) (currentSlice l) newStateSlice of
             Inl error \<Rightarrow> catch_error error l w2
           | Inr equal \<Rightarrow>
               if \<not> equal then
                 (let l' = l\<lparr>currentSlice := newStateSlice\<rparr>;
                      w3 = logged (Call_listener (sub_id l) newStateSlice None) w2 in
                  case listener l (heap w) newStateSlice None of
                    Some error \<Rightarrow> catch_error error l' w3
                  | None \<Rightarrow> (None, l', w3))
               else (None, l, w2)))"

text \<open>
  Line 62, \<^verbatim>\<open>listeners.forEach(listener => listener())\<close>: in insertion order, and an
  exception that leaves one closure ends the iteration.
\<close>

fun forEach :: "val \<Rightarrow> subscription list \<Rightarrow> world \<Rightarrow> val option \<times> subscription list \<times> world" where
  "forEach s [] w = (None, [], w)"
| "forEach s (l # ls) w =
     (case listenerToAdd s l w of
        (Some error, l', w') \<Rightarrow> (Some error, l' # ls, w')
      | (None, l', w') \<Rightarrow>
          (case forEach s ls w' of (r, ls', w'') \<Rightarrow> (r, l' # ls', w'')))"

text \<open>Line 55: the candidate next state.\<close>

definition candidate :: "PartialState \<Rightarrow> val \<Rightarrow> world \<Rightarrow> (val + val) \<times> world" where
  "candidate partial s w =
     (case partial of
        Func f \<Rightarrow>
          (case f (heap w) s of
             (r, new) \<Rightarrow> (r, w\<lparr>heap := heap w @ new, trace := trace w @ [Call_partial s]\<rparr>))
      | Plain v \<Rightarrow> (Inr v, w))"

text \<open>Line 60: \<^verbatim>\<open>Object.assign({}, state, nextState)\<close>, the target a fresh object.\<close>

definition assign_fresh :: "val \<Rightarrow> val \<Rightarrow> world \<Rightarrow> val \<times> world" where
  "assign_fresh s nextState w =
     (VObj (length (heap w)),
      w\<lparr>heap := heap w @ [Object_assign Map.empty [own_props (heap w) s, own_props (heap w) nextState]]\<rparr>)"

text \<open>
  Lines 54-64. The result is the exception that left the call, if any, the store and the
  world afterwards.
\<close>

definition setState :: "PartialState \<Rightarrow> bool \<Rightarrow> store \<Rightarrow> world \<Rightarrow> val option \<times> store \<times> world" where
  "setState partial replace st w =
     (case candidate partial (state st) w of
        (Inl error, w1) \<Rightarrow> (Some error, st, w1)
      | (Inr nextState, w1) \<Rightarrow>
          if strict_neq nextState (state st) then
            (case (if replace then (nextState, w1) else assign_fresh (state st) nextState w1) of
               (s', w2) \<Rightarrow>
                 (case forEach s' (listeners st) w2 of
                    (r, ls', w3) \<Rightarrow> (r, st\<lparr>state := s', listeners := ls'\<rparr>, w3)))
          else (None, st, w1))"

text \<open>Line 66.\<close>

definition getState :: "store \<Rightarrow> val" where
  "getState st = state st"

text \<open>
  Lines 68-92. The optional arguments default to \<^verbatim>\<open>getState\<close> and \<^verbatim>\<open>Object.is\<close>. The
  returned \<^verbatim>\<open>unsubscribe\<close> closure is represented by the identity of the entry it deletes.
\<close>

definition default_selector :: StateSelector where
  "default_selector h s = Inr s"

definition default_equalityFn :: EqualityChecker where
  "default_equalityFn h a b = Inr (Object_is a b)"

definition subscribe ::
  "StateListener \<Rightarrow> StateSelector option \<Rightarrow> EqualityChecker option \<Rightarrow> store \<Rightarrow> world
     \<Rightarrow> (val + nat) \<times> store \<times> world" where
  "subscribe lis sel eq st w =
     (let sel' = (case sel of None \<Rightarrow> default_selector | Some f \<Rightarrow> f);
          eq' = (case eq of None \<Rightarrow> default_equalityFn | Some f \<Rightarrow> f);
          w1 = logged (Call_selector (state st)) w in
      case sel' (heap w) (state st) of
        Inl error \<Rightarrow> (Inl error, st, w1)
      | Inr slice \<Rightarrow>
          (Inr (next_id st),
           st\<lparr>listeners := listeners st @
                 [\<lparr>sub_id = next_id st, listener = lis, selector = sel', equalityFn = eq',
                   currentSlice = slice\<rparr>],
               next_id := Suc (next_id st)\<rparr>,
           w1))"

definition unsubscribe :: "nat \<Rightarrow> store \<Rightarrow> store" where
  "unsubscribe i st = st\<lparr>listeners := filter (\<lambda>l. sub_id l \<noteq> i) (listeners st)\<rparr>"

text \<open>Line 94.\<close>

definition destroy :: "store \<Rightarrow> store" where
  "destroy st = st\<lparr>listeners := []\<rparr>"

text \<open>
  Lines 48-53 and 136-139. \<^verbatim>\<open>createState\<close> receives the three closures of the store; as no
  callback of the model calls back into the store, they are not arguments here. An exception
  thrown by the initializer leaves \<^verbatim>\<open>create\<close>, and no store is returned.
\<close>

definition create :: "StateCreator \<Rightarrow> world \<Rightarrow> (val + store) \<times> world" where
  "create createState w =
     (case createState (heap w) of
        (r, new) \<Rightarrow>
          (let w1 = w\<lparr>heap := heap w @ new, trace := trace w @ [Call_createState]\<rparr> in
           case r of
             Inl error \<Rightarrow> (Inl error, w1)
           | Inr s \<Rightarrow> (Inr \<lparr>state = s, listeners = [], next_id = 0\<rparr>, w1)))"

section \<open>The slice subscription of the hook\<close>

text \<open>
  Lines 100-103: the closure variables of the object that \<^verbatim>\<open>useMemo\<close> builds, \<open>slice\<close>
  for its \<^verbatim>\<open>currentSlice\<close>. The selector and the equality function are those of the
  \<^verbatim>\<open>useStore\<close> call.
\<close>

record slice_subscription =
  slice :: val
  errored :: bool

definition new_subscription :: "StateSelector \<Rightarrow> val \<Rightarrow> world \<Rightarrow> (val + slice_subscription) \<times> world" where
  "new_subscription sel s w =
     (let w1 = logged (Call_selector s) w in
      case sel (heap w) s of
        Inl error \<Rightarrow> (Inl error, w1)
      | Inr v \<Rightarrow> (Inr \<lparr>slice = v, errored = False\<rparr>, w1))"


text \<open>Lines 120-127, without the call of the framework's \<^verbatim>\<open>callback\<close>.\<close>

definition hook_listener :: "val \<Rightarrow> val option \<Rightarrow> slice_subscription \<Rightarrow> slice_subscription" where
  "hook_listener nextSlice error a =
     (if (case error of None \<Rightarrow> False | Some e \<Rightarrow> truthy e)
      then a\<lparr>errored := True\<rparr>
      else a\<lparr>slice := nextSlice\<rparr>)"

section \<open>Sequences of calls and the words of the specification\<close>



text \<open>
  The partials of such a sequence: for each call the properties of its candidate, read when
  the call resolves it (a call whose updater throws has none).
\<close>

fun partials :: "PartialState list \<Rightarrow> store \<Rightarrow> world \<Rightarrow> obj list" where
  "partials [] st w = []"
| "partials (p # ps) st w =
     (case candidate p (state st) w of
        (Inr x, w1) \<Rightarrow> [own_props (heap w1) x]
      | (Inl error, w1) \<Rightarrow> []) @
     (case setState p False st w of (r, st', w') \<Rightarrow> partials ps st' w')"

text \<open>Every candidate of the sequence is a valid value where the call resolves it.\<close>

fun valid_candidates :: "PartialState list \<Rightarrow> store \<Rightarrow> world \<Rightarrow> bool" where
  "valid_candidates [] st w = True"
| "valid_candidates (p # ps) st w =
     ((case candidate p (state st) w of
         (Inr x, w1) \<Rightarrow> valid_val (heap w1) x
       | (Inl error, w1) \<Rightarrow> True) \<and>
      (case setState p False st w of (r, st', w') \<Rightarrow> valid_candidates ps st' w'))"



text \<open>
  The closures of the set have different identities, all drawn from the counter already.
\<close>

definition registry_ok :: "store \<Rightarrow> bool" where
  "registry_ok st =
     (distinct (map sub_id (listeners st)) \<and> (\<forall>l\<in>set (listeners st). sub_id l < next_id st))"

section \<open>Concrete callbacks and stores\<close>

text \<open>
  Property access \<^verbatim>\<open>v[n]\<close>: a \<^verbatim>\<open>TypeError\<close> on \<^verbatim>\<open>undefined\<close> and \<^verbatim>\<open>null\<close>, and
  \<^verbatim>\<open>undefined\<close> for a property that is absent.
\<close>

definition get_prop :: "heap \<Rightarrow> val \<Rightarrow> string \<Rightarrow> val + val" where
  "get_prop h v n =
     (if v = VUndefined \<or> v = VNull then Inl (VStr ''TypeError'')
      else Inr (case own_props h v (Name n) of Some x \<Rightarrow> x | None \<Rightarrow> VUndefined))"

text \<open>The selectors \<^verbatim>\<open>s => s.a\<close> and \<^verbatim>\<open>s => s.user.name\<close>.\<close>

definition select_a :: StateSelector where
  "select_a h s = get_prop h s ''a''"

definition select_user_name :: StateSelector where
  "select_user_name h s =
     (case get_prop h s ''user'' of Inl error \<Rightarrow> Inl error | Inr u \<Rightarrow> get_prop h u ''name'')"

text \<open>The equality function \<^verbatim>\<open>(a, b) => Math.abs(a - b) < 2\<close>.\<close>

definition near :: EqualityChecker where
  "near h a b = (case (a, b) of (VNum x, VNum y) \<Rightarrow> Inr (\<bar>x - y\<bar> < 2) | _ \<Rightarrow> Inr False)"

text \<open>A listener that returns normally on every call.\<close>

definition quiet :: StateListener where
  "quiet h a e = None"



text \<open>The initializer \<^verbatim>\<open>() => ({count: 0})\<close> and the store it gives on an empty heap.\<close>

definition init_count :: StateCreator where
  "init_count h = (Inr (VObj (length h)), [[Name ''count'' \<mapsto> VNum 0]])"

definition empty_world :: world where
  "empty_world = \<lparr>heap = [], trace = []\<rparr>"

definition count_world :: world where
  "count_world = \<lparr>heap = [[Name ''count'' \<mapsto> VNum 0]], trace = [Call_createState]\<rparr>"

definition count_store :: store where
  "count_store = \<lparr>state = VObj 0, listeners = [], next_id = 0\<rparr>"

text \<open>
  A store holding \<^verbatim>\<open>{a: 1, b: 1}\<close>, with the partials \<^verbatim>\<open>{a: 2}\<close>, \<^verbatim>\<open>{b: 99}\<close> and
  \<^verbatim>\<open>{a: 3}\<close> at references 1, 2 and 3.
\<close>

definition ab_world :: world where
  "ab_world =
     \<lparr>heap = [[Name ''a'' \<mapsto> VNum 1, Name ''b'' \<mapsto> VNum 1], [Name ''a'' \<mapsto> VNum 2],
              [Name ''b'' \<mapsto> VNum 99], [Name ''a'' \<mapsto> VNum 3]],
      trace = []\<rparr>"

definition ab_store :: store where
  "ab_store = \<lparr>state = VObj 0, listeners = [], next_id = 0\<rparr>"

text \<open>
  \<^verbatim>\<open>subscribe(quiet, s => s.a, near)\<close> on that store, then \<^verbatim>\<open>setState({a: 2})\<close> and
  \<^verbatim>\<open>setState({a: 3})\<close>.
\<close>

definition near_subscribed :: "(val + nat) \<times> store \<times> world" where
  "near_subscribed = subscribe quiet (Some select_a) (Some near) ab_store ab_world"



text \<open>
  A store holding \<^verbatim>\<open>{user: {name: "x"}}\<close>, with the partial \<^verbatim>\<open>{user: null}\<close> at
  reference 2; \<^verbatim>\<open>subscribe(quiet, s => s.user.name)\<close> and \<^verbatim>\<open>subscribe(quiet)\<close> on it.
\<close>

definition user_world :: world where
  "user_world =
     \<lparr>heap = [[Name ''name'' \<mapsto> VStr ''x''], [Name ''user'' \<mapsto> VObj 0], [Name ''user'' \<mapsto> VNull]],
      trace = []\<rparr>"

definition user_store :: store where
  "user_store = \<lparr>state = VObj 1, listeners = [], next_id = 0\<rparr>"

definition user_subscribed1 :: "(val + nat) \<times> store \<times> world" where
  "user_subscribed1 = subscribe quiet (Some select_user_name) None user_store user_world"

definition user_subscribed2 :: "(val + nat) \<times> store \<times> world" where
  "user_subscribed2 = subscribe quiet None None (fst (snd user_subscribed1)) (snd (snd user_subscribed1))"

text \<open>\<^verbatim>\<open>setState({user: null})\<close> on the store with both subscriptions.\<close>

definition user_step :: "val option \<times> store \<times> world" where
  "user_step = setState (Plain (VObj 2)) False (fst (snd user_subscribed2)) (snd (snd user_subscribed2))"

text \<open>The updater \<^verbatim>\<open>state => state\<close>.\<close>

definition returns_state :: Updater where
  "returns_state h s = (Inr s, [])"




section \<open>Properties of the heap and of one notification\<close>



lemma own_props_append: "valid_val h v \<Longrightarrow> own_props (h @ h') v = own_props h v"
  by (cases v) (auto simp: valid_val_def own_props_def nth_append)

lemma valid_val_append: "valid_val h v \<Longrightarrow> valid_val (h @ h') v"
  by (cases v) (auto simp: valid_val_def)

lemma candidate_heap: "candidate p s w = (r, w1) \<Longrightarrow> \<exists>new. heap w1 = heap w @ new"
  by (auto simp: candidate_def split: PartialState.splits prod.splits)


lemma candidate_listener_calls:
  "candidate p s w = (r, w1) \<Longrightarrow>
   filter is_listener_call (trace w1) = filter is_listener_call (trace w)"
  by (auto simp: candidate_def split: PartialState.splits prod.splits)

lemma listenerToAdd_heap: "listenerToAdd s l w = (r, l', w') \<Longrightarrow> heap w' = heap w"
  by (auto simp: listenerToAdd_def catch_error_def logged_def Let_def
      split: sum.splits if_splits option.splits)

lemma forEach_heap: "forEach s ls w = (r, ls', w') \<Longrightarrow> heap w' = heap w"
proof (induction ls arbitrary: w r ls' w')
  case Nil
  then show ?case by simp
next
  case (Cons l ls)
  then show ?case
    by (auto split: prod.splits option.splits dest: listenerToAdd_heap)
qed












section \<open>Properties of one accepted call of setState\<close>







text \<open>
  For partials given as plain values that are valid on the initial heap, the partials of a
  sequence are their properties there.
\<close>

lemma setState_heap: "setState partial replace st w = (r, st', w') \<Longrightarrow> \<exists>new. heap w' = heap w @ new"
proof -
  assume s: "setState partial replace st w = (r, st', w')"
  obtain c w1 where c: "candidate partial (state st) w = (c, w1)" by (metis surj_pair)
  from candidate_heap [OF c] obtain n1 where h1: "heap w1 = heap w @ n1" by blast
  show ?thesis
  proof (cases c)
    case (Inl e)
    with s c h1 show ?thesis by (auto simp: setState_def)
  next
    case (Inr x)
    show ?thesis
    proof (cases "strict_neq x (state st)")
      case False
      with s c Inr h1 show ?thesis by (auto simp: setState_def)
    next
      case True
      obtain s' w2 where a: "(if replace then (x, w1) else assign_fresh (state st) x w1) = (s', w2)"
        by (metis surj_pair)
      then have "\<exists>n2. heap w2 = heap w1 @ n2"
        by (auto simp: assign_fresh_def split: if_splits)
      then obtain n2 where h2: "heap w2 = heap w1 @ n2" by blast
      obtain r' ls' w3 where f: "forEach s' (listeners st) w2 = (r', ls', w3)"
        by (metis prod_cases3)
      from s c Inr True a f have "w' = w3" by (auto simp: setState_def)
      with forEach_heap [OF f] h1 h2 show ?thesis by simp
    qed
  qed
qed

lemma partials_Plain:
  "\<forall>x\<in>set xs. valid_val (heap w) x \<Longrightarrow>
   partials (map Plain xs) st w = map (own_props (heap w)) xs"
proof (induction xs arbitrary: st w)
  case Nil
  then show ?case by simp
next
  case (Cons x xs)
  obtain r st' w' where s: "setState (Plain x) False st w = (r, st', w')"
    by (metis prod_cases3)
  from setState_heap [OF s] obtain new where h: "heap w' = heap w @ new" by blast
  have v: "\<forall>y\<in>set xs. valid_val (heap w') y"
    using Cons.prems h by (simp add: valid_val_append)
  have "map (own_props (heap w')) xs = map (own_props (heap w)) xs"
    using Cons.prems h by (simp add: own_props_append)
  with Cons.IH [OF v, of st'] s show ?case
    by (simp add: candidate_def)
qed

lemma valid_candidates_Plain:
  "\<forall>x\<in>set xs. valid_val (heap w) x \<Longrightarrow> valid_candidates (map Plain xs) st w"
proof (induction xs arbitrary: st w)
  case Nil
  then show ?case by simp
next
  case (Cons x xs)
  obtain r st' w' where s: "setState (Plain x) False st w = (r, st', w')"
    by (metis prod_cases3)
  from setState_heap [OF s] obtain new where h: "heap w' = heap w @ new" by blast
  have v: "\<forall>y\<in>set xs. valid_val (heap w') y"
    using Cons.prems h by (simp add: valid_val_append)
  with Cons.IH [OF v, of st'] s Cons.prems show ?case
    by (simp add: candidate_def)
qed

section \<open>The identities of the registered closures\<close>

text \<open>
  Every store that \<^verbatim>\<open>create\<close> returns and the operations lead to keeps the closures of
  its set apart by their identities, which is what the claims about one subscription assume.
\<close>

lemma listenerToAdd_id: "listenerToAdd s l w = (r, l', w') \<Longrightarrow> sub_id l' = sub_id l"
  by (auto simp: listenerToAdd_def catch_error_def Let_def split: sum.splits if_splits option.splits)

lemma forEach_ids: "forEach s ls w = (r, ls', w') \<Longrightarrow> map sub_id ls' = map sub_id ls"
proof (induction ls arbitrary: w r ls' w')
  case Nil
  then show ?case by simp
next
  case (Cons l ls)
  then show ?case
    by (auto split: prod.splits option.splits dest: listenerToAdd_id)
qed

lemma registry_ok_ids:
  "map sub_id (listeners st') = map sub_id (listeners st) \<Longrightarrow> next_id st' = next_id st \<Longrightarrow>
   registry_ok st \<Longrightarrow> registry_ok st'"
proof -
  assume m: "map sub_id (listeners st') = map sub_id (listeners st)"
    and n: "next_id st' = next_id st" and ok: "registry_ok st"
  have img: "sub_id ` set (listeners st') = sub_id ` set (listeners st)"
    using m by (metis set_map)
  have "sub_id l < next_id st'" if "l \<in> set (listeners st')" for l
  proof -
    from that img have "sub_id l \<in> sub_id ` set (listeners st)" by blast
    then obtain l0 where "l0 \<in> set (listeners st)" and "sub_id l = sub_id l0" by blast
    then show ?thesis using ok n by (simp add: registry_ok_def)
  qed
  then show ?thesis using m ok by (simp add: registry_ok_def)
qed

lemma registry_ok_create: "create createState w = (Inr st, w') \<Longrightarrow> registry_ok st"
  by (auto simp: create_def registry_ok_def Let_def split: prod.splits sum.splits)

lemma registry_ok_subscribe:
  assumes "registry_ok st" and "subscribe lis sel eq st w = (r, st', w')"
  shows "registry_ok st'"
  using assms
  by (fastforce simp: subscribe_def registry_ok_def Let_def split: sum.splits)

lemma registry_ok_unsubscribe: "registry_ok st \<Longrightarrow> registry_ok (unsubscribe i st)"
  by (auto simp: unsubscribe_def registry_ok_def distinct_map_filter)

lemma registry_ok_destroy: "registry_ok (destroy st)"
  by (simp add: destroy_def registry_ok_def)

lemma registry_ok_setState:
  assumes "registry_ok st" and "setState partial replace st w = (r, st', w')"
  shows "registry_ok st'"
proof -
  have "map sub_id (listeners st') = map sub_id (listeners st) \<and> next_id st' = next_id st"
    using assms(2)
    by (auto simp: setState_def split: prod.splits sum.splits if_splits dest: forEach_ids)
  then show ?thesis using assms(1) by (blast intro: registry_ok_ids)
qed

section \<open>The concrete runs\<close>




text \<open>The runs on the other stores, evaluated.\<close>

lemmas run_defs = setState_def candidate_def assign_fresh_def listenerToAdd_def catch_error_def
  logged_def subscribe_def Object_assign_def own_props_def strict_neq_def Let_def
  default_selector_def default_equalityFn_def Object_is_def destroy_def
  select_a_def select_user_name_def get_prop_def near_def quiet_def

lemma near_subscribed_eval:
  "near_subscribed =
     (Inr 0,
      \<lparr>state = VObj 0,
       listeners = [\<lparr>sub_id = 0, listener = quiet, selector = select_a, equalityFn = near,
                     currentSlice = VNum 1\<rparr>],
       next_id = 1\<rparr>,
      \<lparr>heap = heap ab_world, trace = [Call_selector (VObj 0)]\<rparr>)"
  by (simp add: near_subscribed_def ab_store_def ab_world_def subscribe_def logged_def
      select_a_def get_prop_def own_props_def)



lemma user_subscribed2_eval:
  "user_subscribed2 =
     (Inr 1,
      \<lparr>state = VObj 1,
       listeners = [\<lparr>sub_id = 0, listener = quiet, selector = select_user_name,
                     equalityFn = default_equalityFn, currentSlice = VStr ''x''\<rparr>,
                    \<lparr>sub_id = 1, listener = quiet, selector = default_selector,
                     equalityFn = default_equalityFn, currentSlice = VObj 1\<rparr>],
       next_id = 2\<rparr>,
      \<lparr>heap = heap user_world, trace = [Call_selector (VObj 1), Call_selector (VObj 1)]\<rparr>)"
  by (simp add: user_subscribed2_def user_subscribed1_def user_store_def user_world_def subscribe_def
      logged_def select_user_name_def get_prop_def own_props_def default_selector_def)

lemma user_step_eval:
  "user_step =
     (None,
      \<lparr>state = VObj 3,
       listeners = [\<lparr>sub_id = 0, listener = quiet, selector = select_user_name,
                     equalityFn = default_equalityFn, currentSlice = VStr ''x''\<rparr>,
                    \<lparr>sub_id = 1, listener = quiet, selector = default_selector,
                     equalityFn = default_equalityFn, currentSlice = VObj 3\<rparr>],
       next_id = 2\<rparr>,
      \<lparr>heap = heap user_world @ [[Name ''user'' \<mapsto> VNull]],
       trace = [Call_selector (VObj 1), Call_selector (VObj 1), Call_selector (VObj 3),
                Call_listener 0 VNull (Some (VStr ''TypeError'')), Call_selector (VObj 3),
                Call_equalityFn (VObj 1) (VObj 3), Call_listener 1 (VObj 3) None]\<rparr>)"
  apply (simp add: user_step_def user_subscribed2_eval)
  apply (simp add: user_world_def run_defs)
  done




section \<open>The claims\<close>










text \<open>
  Claim C5. When the candidate, given directly or returned by an updater, is \<^verbatim>\<open>===\<close> to the
  held state, \<^verbatim>\<open>setState\<close> returns with the store as it was, and no listener is invoked.
\<close>

theorem setState_same_reference:
  assumes "candidate partial (state st) w = (Inr x, w1)"
    and "\<not> strict_neq x (state st)"
  shows "setState partial replace st w = (None, st, w1) \<and>
         filter is_listener_call (trace w1) = filter is_listener_call (trace w)"
  using assms candidate_listener_calls [OF assms(1)] by (simp add: setState_def)

theorem setState_same_reference_witness:
  "setState (Plain (VObj 0)) False (fst (snd near_subscribed)) (snd (snd near_subscribed)) =
     (None, fst (snd near_subscribed), snd (snd near_subscribed)) \<and>
   getState (fst (snd (setState (Func returns_state) False (fst (snd near_subscribed))
                         (snd (snd near_subscribed))))) = VObj 0 \<and>
   filter is_listener_call
     (trace (snd (snd (setState (Func returns_state) False (fst (snd near_subscribed))
                         (snd (snd near_subscribed)))))) = []"
proof -
  let ?st = "fst (snd near_subscribed)" and ?w = "snd (snd near_subscribed)"
  let ?w1 = "?w\<lparr>heap := heap ?w @ [], trace := trace ?w @ [Call_partial (VObj 0)]\<rparr>"
  have c1: "candidate (Plain (VObj 0)) (state ?st) ?w = (Inr (VObj 0), ?w)"
    by (simp add: candidate_def)
  have c2: "candidate (Func returns_state) (state ?st) ?w = (Inr (VObj 0), ?w1)"
    by (simp add: candidate_def returns_state_def near_subscribed_eval)
  have n: "\<not> strict_neq (VObj 0) (state ?st)"
    by (simp add: strict_neq_def near_subscribed_eval)
  have t: "filter is_listener_call (trace ?w) = []" and g: "getState ?st = VObj 0"
    by (simp_all add: near_subscribed_eval getState_def)
  from setState_same_reference [OF c1 n, of False] setState_same_reference [OF c2 n, of False] t g
  show ?thesis by simp
qed





text \<open>
  Claim C8. \<^verbatim>\<open>create\<close> invokes the initializer once, and when the initializer returns
  \<open>s\<close>, \<^verbatim>\<open>create\<close> returns a store on which \<^verbatim>\<open>getState()\<close> is \<open>s\<close>.
\<close>

theorem create_first_state:
  "trace (snd (create createState w)) = trace w @ [Call_createState] \<and>
   (\<forall>s new. createState (heap w) = (Inr s, new) \<longrightarrow>
      (\<exists>st. fst (create createState w) = Inr st \<and> getState st = s \<and> listeners st = []))"
  by (auto simp: create_def getState_def Let_def split: prod.splits sum.splits)

theorem create_first_state_witness:
  "create init_count empty_world = (Inr count_store, count_world) \<and>
   getState count_store = VObj 0 \<and>
   own_props (heap count_world) (getState count_store) (Name ''count'') = Some (VNum 0)"
proof -
  have i: "init_count (heap empty_world) = (Inr (VObj 0), [[Name ''count'' \<mapsto> VNum 0]])"
    by (simp add: init_count_def empty_world_def)
  from create_first_state [of init_count empty_world] i
  obtain st where "fst (create init_count empty_world) = Inr st" and "getState st = VObj 0"
    and "trace (snd (create init_count empty_world)) = trace empty_world @ [Call_createState]"
    by blast
  moreover have "create init_count empty_world = (Inr count_store, count_world)"
    by (simp add: create_def init_count_def empty_world_def count_store_def count_world_def)
  ultimately show ?thesis
    by (simp add: own_props_def count_world_def)
qed




text \<open>
  Claim C10. When the selector throws on the held state at \<^verbatim>\<open>subscribe\<close>, the exception
  leaves \<^verbatim>\<open>subscribe\<close>: no \<^verbatim>\<open>unsubscribe\<close> is returned, the store and its set of
  listeners are as before, and no listener is invoked.
\<close>

theorem subscribe_selector_throws:
  assumes "sel (heap w) (state st) = Inl error"
  shows "subscribe lis (Some sel) eq st w = (Inl error, st, logged (Call_selector (state st)) w) \<and>
         filter is_listener_call (trace (logged (Call_selector (state st)) w)) =
           filter is_listener_call (trace w)"
  using assms by (simp add: subscribe_def logged_def)

theorem subscribe_selector_throws_witness:
  "subscribe quiet (Some select_user_name) None (fst (snd user_step)) (snd (snd user_step)) =
     (Inl (VStr ''TypeError''), fst (snd user_step),
      logged (Call_selector (VObj 3)) (snd (snd user_step))) \<and>
   length (listeners (fst (snd user_step))) = 2"
proof -
  have "select_user_name (heap (snd (snd user_step))) (state (fst (snd user_step))) =
          Inl (VStr ''TypeError'')"
    by (simp add: user_step_eval user_world_def select_user_name_def get_prop_def own_props_def)
  from subscribe_selector_throws [where sel = select_user_name and w = "snd (snd user_step)"
      and st = "fst (snd user_step)" and lis = quiet and eq = None, OF this]
  show ?thesis
    by (simp add: user_step_eval)
qed

end
